theory Spec2Isabelle
  imports Main "HOL-Library.Word" "HOL-Library.Signed_Division"
begin

unbundle bit_operations_syntax

section \<open>The shared client counter (client.c, lines 23-46)\<close>

text \<open>
  \<^verbatim>\<open>ceph_num_clients\<close> is a C \<^verbatim>\<open>int\<close> guarded by \<^verbatim>\<open>ceph_client_spinlock\<close>; both
  functions run entirely inside the lock, so each is one atomic step on the counter.
  The counter is the 32 bits of the \<^verbatim>\<open>int\<close>: \<^verbatim>\<open>++\<close> and \<^verbatim>\<open>--\<close> wrap around, and \<open>sint\<close>
  reads its value. The two work-queue calls are recorded in a log, oldest first.
\<close>

datatype wq_action = Workqueue_init | Workqueue_shutdown

record counter_state =
  ceph_num_clients :: "32 word"
  wq_log :: "wq_action list"

definition get_client_counter :: "counter_state \<Rightarrow> counter_state" where
  "get_client_counter s =
     (let s1 = (if ceph_num_clients s = 0
                then s\<lparr>wq_log := wq_log s @ [Workqueue_init]\<rparr> else s)
      in s1\<lparr>ceph_num_clients := ceph_num_clients s1 + 1\<rparr>)"

definition put_client_counter :: "counter_state \<Rightarrow> counter_state" where
  "put_client_counter s =
     (let s1 = s\<lparr>ceph_num_clients := ceph_num_clients s - 1\<rparr>
      in if ceph_num_clients s1 = 0
         then s1\<lparr>wq_log := wq_log s1 @ [Workqueue_shutdown]\<rparr> else s1)"

text \<open>
  \<^verbatim>\<open>ceph_create_client\<close> acquires the counter once after the aggregate is allocated and
  releases it again on its \<^verbatim>\<open>fail\<close> label; \<^verbatim>\<open>ceph_destroy_client\<close> releases it once.
  An interleaving of many creations and destructions is therefore a list of counter
  operations in which every release follows the acquire of the same aggregate.
\<close>

datatype counter_op = Acquire | Release

fun counter_step :: "counter_op \<Rightarrow> counter_state \<Rightarrow> counter_state" where
  "counter_step Acquire s = get_client_counter s"
| "counter_step Release s = put_client_counter s"

text \<open>How \<^verbatim>\<open>ceph_create_client\<close> can end, and the counter operations it performs.\<close>

datatype create_outcome = Kzalloc_failed | Messenger_create_failed | Monc_init_failed | Created

fun ceph_create_client_ops :: "create_outcome \<Rightarrow> counter_op list" where
  "ceph_create_client_ops Kzalloc_failed = []"
| "ceph_create_client_ops Messenger_create_failed = [Acquire, Release]"
| "ceph_create_client_ops Monc_init_failed = [Acquire, Release]"
| "ceph_create_client_ops Created = [Acquire]"

definition ceph_destroy_client_ops :: "counter_op list" where
  "ceph_destroy_client_ops = [Release]"

text \<open>One executed step: the count before, the actions it ran, the count after.\<close>

record counter_transition =
  count_before :: int
  actions_run :: "wq_action list"
  count_after :: int

definition transition_of :: "counter_op \<Rightarrow> counter_state \<Rightarrow> counter_transition" where
  "transition_of opn s =
     \<lparr>count_before = sint (ceph_num_clients s),
      actions_run = drop (length (wq_log s)) (wq_log (counter_step opn s)),
      count_after = sint (ceph_num_clients (counter_step opn s))\<rparr>"

fun counter_run :: "counter_op list \<Rightarrow> counter_state \<Rightarrow> counter_transition list" where
  "counter_run [] s = []"
| "counter_run (opn # ops) s = transition_of opn s # counter_run ops (counter_step opn s)"

text \<open>
  Every release is matched by an earlier acquire: scanning from the left with
  \<open>held\<close> aggregates currently counted, a release needs one of them.
\<close>

fun releases_matched :: "nat \<Rightarrow> counter_op list \<Rightarrow> bool" where
  "releases_matched held [] = True"
| "releases_matched held (Acquire # ops) = releases_matched (Suc held) ops"
| "releases_matched held (Release # ops) = (held > 0 \<and> releases_matched (held - 1) ops)"

text \<open>
  No more than \<open>limit\<close> aggregates are counted at any moment of the history; the largest
  value of the \<^verbatim>\<open>int\<close> is \<open>INT_MAX\<close>.
\<close>

fun held_at_most :: "nat \<Rightarrow> nat \<Rightarrow> counter_op list \<Rightarrow> bool" where
  "held_at_most limit held [] = True"
| "held_at_most limit held (Acquire # ops) = (Suc held \<le> limit \<and> held_at_most limit (Suc held) ops)"
| "held_at_most limit held (Release # ops) = held_at_most limit (held - 1) ops"

definition INT_MAX :: nat where
  "INT_MAX = 2147483647"

definition initial_counter :: counter_state where
  "initial_counter = \<lparr>ceph_num_clients = 0, wq_log = []\<rparr>"

definition transition_ok :: "counter_transition \<Rightarrow> bool" where
  "transition_ok t =
     ((Workqueue_init \<in> set (actions_run t)) = (count_before t = 0 \<and> count_after t = 1) \<and>
      (Workqueue_shutdown \<in> set (actions_run t)) = (count_before t = 1 \<and> count_after t = 0) \<and>
      length (actions_run t) \<le> 1 \<and>
      0 \<le> count_before t \<and> 0 \<le> count_after t)"

section \<open>Data of the client (super.h, ceph_fs.h as used by client.c)\<close>

type_synonym u8 = "8 word"
type_synonym u32 = "32 word"
type_synonym u64 = "64 word"

text \<open>Contents that client.c stores or passes on but never inspects.\<close>

type_synonym opaque = "u8 list"

text \<open>
  A kernel pointer that is either an error code wrapped by \<^verbatim>\<open>ERR_PTR\<close> or a valid
  object; \<^verbatim>\<open>IS_ERR\<close> is the test for the first constructor and \<^verbatim>\<open>PTR_ERR\<close> reads
  its code. Pointers that may be \<^verbatim>\<open>NULL\<close> are options.
\<close>

datatype 'a ptr = ERR_PTR int | Ptr 'a

text \<open>
  Errors the kernel does not return from: a failed \<^verbatim>\<open>BUG_ON\<close>, an integer division by
  zero, and a dereference of \<^verbatim>\<open>NULL\<close>.
\<close>

datatype kernel_fault = BUG_ON_failed | Divide_error | Null_dereference

definition ENOMEM :: int where "ENOMEM = 12"
definition EINVAL :: int where "EINVAL = 22"

text \<open>
  The message type tags. Their numeric values are macros of ceph_fs.h; client.c only
  compares a tag with these names, so the tags named in \<^verbatim>\<open>ceph_msg_type_name\<close> are
  constructors and every other value of the 32-bit field is \<open>CEPH_MSG_other\<close>.
\<close>

datatype ceph_msg_type =
    CEPH_MSG_SHUTDOWN | CEPH_MSG_PING | CEPH_MSG_PING_ACK | CEPH_MSG_MON_MAP
  | CEPH_MSG_CLIENT_MOUNT | CEPH_MSG_CLIENT_UNMOUNT | CEPH_MSG_STATFS | CEPH_MSG_STATFS_REPLY
  | CEPH_MSG_MDS_GETMAP | CEPH_MSG_MDS_MAP | CEPH_MSG_CLIENT_SESSION | CEPH_MSG_CLIENT_RECONNECT
  | CEPH_MSG_CLIENT_REQUEST | CEPH_MSG_CLIENT_REQUEST_FORWARD | CEPH_MSG_CLIENT_REPLY
  | CEPH_MSG_CLIENT_FILECAPS | CEPH_MSG_OSD_GETMAP | CEPH_MSG_OSD_MAP | CEPH_MSG_OSD_OP
  | CEPH_MSG_OSD_OPREPLY | CEPH_MSG_other u32

record ceph_entity_name =
  name_type :: u32
  name_num :: u32

record ceph_msg =
  hdr_type :: ceph_msg_type
  hdr_dst_name :: ceph_entity_name
  front :: "u8 list"

record ceph_monmap =
  epoch :: u32
  monmap_rest :: opaque

record ceph_mon_client =
  monmap :: ceph_monmap
  monc_rest :: opaque

record ceph_mds_client =
  mdsmap :: "opaque option"
  mdsc_rest :: opaque

record ceph_osd_client =
  osdmap :: "opaque option"
  osdc_rest :: opaque

type_synonym inode = nat

record dentry =
  d_inode :: "inode option"

text \<open>
  The aggregate. \<open>mounting\<close> is an \<^verbatim>\<open>unsigned long\<close> (64 bits here), \<open>whoami\<close> the 32 bits
  of an \<^verbatim>\<open>int\<close>; \<open>msgr_inst_name\<close> is \<^verbatim>\<open>client->msgr->inst.name\<close> and \<open>sb_s_root\<close> is
  \<^verbatim>\<open>client->sb->s_root\<close>.
\<close>

record ceph_client =
  whoami :: u32
  mounting :: u64
  monc :: ceph_mon_client
  mdsc :: ceph_mds_client
  osdc :: ceph_osd_client
  msgr_inst_name :: ceph_entity_name
  sb_s_root :: "dentry option"

section \<open>Creating and destroying the aggregate (client.c, lines 227-283)\<close>

text \<open>
  What the callees of \<^verbatim>\<open>ceph_create_client\<close> return: whether \<^verbatim>\<open>kzalloc\<close> succeeds, the
  messenger (of which only \<^verbatim>\<open>inst.name\<close> is kept here) or an error pointer, the error code
  and state of \<^verbatim>\<open>ceph_monc_init\<close>, and the states the other two initialisers leave.
\<close>

record create_env =
  kzalloc_ok :: bool
  ceph_messenger_create :: "ceph_entity_name ptr"
  ceph_monc_init :: "int \<times> ceph_mon_client"
  ceph_mdsc_init :: ceph_mds_client
  ceph_osdc_init :: ceph_osd_client

definition ceph_create_client ::
    "create_env \<Rightarrow> dentry option \<Rightarrow> counter_state \<Rightarrow> ceph_client ptr \<times> counter_state" where
  "ceph_create_client env s_root cs =
     (if \<not> kzalloc_ok env then (ERR_PTR (- ENOMEM), cs)
      else
        (let cs1 = get_client_counter cs
         in case ceph_messenger_create env of
              ERR_PTR err \<Rightarrow> (ERR_PTR err, put_client_counter cs1)
            | Ptr myname \<Rightarrow>
                (let (err, monc0) = ceph_monc_init env
                 in if err < 0 then (ERR_PTR err, put_client_counter cs1)
                    else (Ptr \<lparr>whoami = - 1, mounting = 0, monc = monc0,
                               mdsc = ceph_mdsc_init env, osdc = ceph_osdc_init env,
                               msgr_inst_name = myname, sb_s_root = s_root\<rparr>, cs1))))"

definition ceph_destroy_client :: "ceph_client \<Rightarrow> counter_state \<Rightarrow> counter_state" where
  "ceph_destroy_client cl cs = put_client_counter cs"

definition create_outcome_of :: "create_env \<Rightarrow> create_outcome" where
  "create_outcome_of env =
     (if \<not> kzalloc_ok env then Kzalloc_failed
      else case ceph_messenger_create env of
             ERR_PTR err \<Rightarrow> Messenger_create_failed
           | Ptr myname \<Rightarrow> if fst (ceph_monc_init env) < 0 then Monc_init_failed else Created)"

section \<open>The map tracker and the dispatcher (client.c, lines 186-220 and 291-348)\<close>

text \<open>
  The handlers of the monitor, metadata and storage clients live in other files. Each is
  given the address of its own sub-client and the message, so it is a function on that
  sub-client's state which reads the message; the message's reference stays with
  \<^verbatim>\<open>ceph_dispatch\<close>. \<^verbatim>\<open>ceph_monmap_decode\<close> returns a new map or an error pointer.
\<close>

record handlers =
  ceph_monmap_decode :: "u8 list \<Rightarrow> ceph_monmap ptr"
  ceph_monc_handle_statfs_reply :: "ceph_mon_client \<Rightarrow> ceph_msg \<Rightarrow> ceph_mon_client"
  ceph_mdsc_handle_map :: "ceph_mds_client \<Rightarrow> ceph_msg \<Rightarrow> ceph_mds_client"
  ceph_mdsc_handle_session :: "ceph_mds_client \<Rightarrow> ceph_msg \<Rightarrow> ceph_mds_client"
  ceph_mdsc_handle_reply :: "ceph_mds_client \<Rightarrow> ceph_msg \<Rightarrow> ceph_mds_client"
  ceph_mdsc_handle_forward :: "ceph_mds_client \<Rightarrow> ceph_msg \<Rightarrow> ceph_mds_client"
  ceph_mdsc_handle_filecaps :: "ceph_mds_client \<Rightarrow> ceph_msg \<Rightarrow> ceph_mds_client"
  ceph_osdc_handle_map :: "ceph_osd_client \<Rightarrow> ceph_msg \<Rightarrow> ceph_osd_client"
  ceph_osdc_handle_reply :: "ceph_osd_client \<Rightarrow> ceph_msg \<Rightarrow> ceph_osd_client"

text \<open>What a dispatch does besides changing the aggregate, in program order.\<close>

datatype event =
    Derr_monmap_decode int
  | Derr_unknown_type
  | Got_first_map_called nat
  | Complete_mount_completion
  | Msg_put

text \<open>\<^verbatim>\<open>find_first_zero_bit(addr, size)\<close>: the lowest clear bit below \<open>size\<close>, or \<open>size\<close>.\<close>

definition find_first_zero_bit :: "u64 \<Rightarrow> nat \<Rightarrow> nat" where
  "find_first_zero_bit w sz =
     (case filter (\<lambda>i. \<not> bit w i) [0..<sz] of [] \<Rightarrow> sz | i # _ \<Rightarrow> i)"

definition got_first_map :: "ceph_client \<Rightarrow> nat \<Rightarrow> ceph_client \<times> event list" where
  "got_first_map client num =
     (let client1 = client\<lparr>mounting := set_bit num (mounting client)\<rparr>
      in (client1,
          if find_first_zero_bit (mounting client1) 4 = 3
          then [Complete_mount_completion] else []))"

definition handle_monmap :: "handlers \<Rightarrow> ceph_client \<Rightarrow> ceph_msg \<Rightarrow> ceph_client \<times> event list" where
  "handle_monmap h client msg =
     (let first = (epoch (monmap (monc client)) = 0)
      in case ceph_monmap_decode h (front msg) of
           ERR_PTR err \<Rightarrow> (client, [Derr_monmap_decode err])
         | Ptr new \<Rightarrow>
             (let client1 = client\<lparr>monc := (monc client)\<lparr>monmap := new\<rparr>\<rparr>
              in (if first
                  then client1\<lparr>whoami := name_num (hdr_dst_name msg),
                               msgr_inst_name := hdr_dst_name msg\<rparr>
                  else client1, [])))"

text \<open>The three map cases share one shape: note \<open>had\<close>, run the handler, test the edge.\<close>

definition first_map_edge :: "bool \<Rightarrow> bool \<Rightarrow> nat \<Rightarrow> ceph_client \<Rightarrow> ceph_client \<times> event list" where
  "first_map_edge had has num client =
     (if \<not> had \<and> has
      then (let (client1, evs) = got_first_map client num
            in (client1, Got_first_map_called num # evs))
      else (client, []))"

definition deliver :: "handlers \<Rightarrow> ceph_client \<Rightarrow> ceph_msg \<Rightarrow> ceph_client \<times> event list" where
  "deliver h client msg =
     (case hdr_type msg of
        CEPH_MSG_MON_MAP \<Rightarrow>
          (let had = (epoch (monmap (monc client)) \<noteq> 0);
               (client1, evs1) = handle_monmap h client msg;
               (client2, evs2) =
                  first_map_edge had (epoch (monmap (monc client1)) \<noteq> 0) 0 client1
           in (client2, evs1 @ evs2))
      | CEPH_MSG_STATFS_REPLY \<Rightarrow>
          (client\<lparr>monc := ceph_monc_handle_statfs_reply h (monc client) msg\<rparr>, [])
      | CEPH_MSG_MDS_MAP \<Rightarrow>
          (let had = (mdsmap (mdsc client) \<noteq> None);
               client1 = client\<lparr>mdsc := ceph_mdsc_handle_map h (mdsc client) msg\<rparr>
           in first_map_edge had (mdsmap (mdsc client1) \<noteq> None) 1 client1)
      | CEPH_MSG_CLIENT_SESSION \<Rightarrow>
          (client\<lparr>mdsc := ceph_mdsc_handle_session h (mdsc client) msg\<rparr>, [])
      | CEPH_MSG_CLIENT_REPLY \<Rightarrow>
          (client\<lparr>mdsc := ceph_mdsc_handle_reply h (mdsc client) msg\<rparr>, [])
      | CEPH_MSG_CLIENT_REQUEST_FORWARD \<Rightarrow>
          (client\<lparr>mdsc := ceph_mdsc_handle_forward h (mdsc client) msg\<rparr>, [])
      | CEPH_MSG_CLIENT_FILECAPS \<Rightarrow>
          (client\<lparr>mdsc := ceph_mdsc_handle_filecaps h (mdsc client) msg\<rparr>, [])
      | CEPH_MSG_OSD_MAP \<Rightarrow>
          (let had = (osdmap (osdc client) \<noteq> None);
               client1 = client\<lparr>osdc := ceph_osdc_handle_map h (osdc client) msg\<rparr>
           in first_map_edge had (osdmap (osdc client1) \<noteq> None) 2 client1)
      | CEPH_MSG_OSD_OPREPLY \<Rightarrow>
          (client\<lparr>osdc := ceph_osdc_handle_reply h (osdc client) msg\<rparr>, [])
      | _ \<Rightarrow> (client, [Derr_unknown_type]))"

text \<open>The switch, then the one \<^verbatim>\<open>ceph_msg_put\<close> every path reaches.\<close>

definition ceph_dispatch :: "handlers \<Rightarrow> ceph_client \<Rightarrow> ceph_msg \<Rightarrow> ceph_client \<times> event list" where
  "ceph_dispatch h client msg =
     (let (client1, evs) = deliver h client msg in (client1, evs @ [Msg_put]))"

text \<open>
  A run of \<^verbatim>\<open>got_first_map\<close> calls on one aggregate: for each call the bitmask before,
  whether \<^verbatim>\<open>complete\<close> was invoked, and the bitmask after.
\<close>

record tracker_call =
  mounting_before :: u64
  completed :: bool
  mounting_after :: u64

fun got_first_map_calls :: "ceph_client \<Rightarrow> nat list \<Rightarrow> tracker_call list" where
  "got_first_map_calls client [] = []"
| "got_first_map_calls client (num # nums) =
     (let (client1, evs) = got_first_map client num
      in \<lparr>mounting_before = mounting client,
          completed = (Complete_mount_completion \<in> set evs),
          mounting_after = mounting client1\<rparr> # got_first_map_calls client1 nums)"

text \<open>
  The three map announcements: the tag the dispatcher switches on, the bit it passes to
  \<^verbatim>\<open>got_first_map\<close>, and its test that the local map is present.
\<close>

datatype map_kind = Monitor_map | Metadata_map | Storage_map

fun kind_tag :: "map_kind \<Rightarrow> ceph_msg_type" where
  "kind_tag Monitor_map = CEPH_MSG_MON_MAP"
| "kind_tag Metadata_map = CEPH_MSG_MDS_MAP"
| "kind_tag Storage_map = CEPH_MSG_OSD_MAP"

fun kind_bit :: "map_kind \<Rightarrow> nat" where
  "kind_bit Monitor_map = 0"
| "kind_bit Metadata_map = 1"
| "kind_bit Storage_map = 2"

fun map_present :: "map_kind \<Rightarrow> ceph_client \<Rightarrow> bool" where
  "map_present Monitor_map client = (epoch (monmap (monc client)) \<noteq> 0)"
| "map_present Metadata_map client = (mdsmap (mdsc client) \<noteq> None)"
| "map_present Storage_map client = (osdmap (osdc client) \<noteq> None)"

definition has_handler :: "ceph_msg_type \<Rightarrow> bool" where
  "has_handler t = (t \<in> {CEPH_MSG_MON_MAP, CEPH_MSG_STATFS_REPLY, CEPH_MSG_MDS_MAP,
     CEPH_MSG_CLIENT_SESSION, CEPH_MSG_CLIENT_REPLY, CEPH_MSG_CLIENT_REQUEST_FORWARD,
     CEPH_MSG_CLIENT_FILECAPS, CEPH_MSG_OSD_MAP, CEPH_MSG_OSD_OPREPLY})"

text \<open>Only the three readiness bits may be set.\<close>

definition low3 :: "u64 \<Rightarrow> bool" where
  "low3 w = (\<forall>n. bit w n \<longrightarrow> n < 3)"

text \<open>A call that takes the bitmask from incomplete to complete.\<close>

definition transition_to_complete :: "tracker_call \<Rightarrow> bool" where
  "transition_to_complete t = (mounting_before t \<noteq> 7 \<and> mounting_after t = 7)"

text \<open>A client that has received no map yet, and handlers that install what they are sent.\<close>

definition fresh_client :: ceph_client where
  "fresh_client =
     \<lparr>whoami = - 1, mounting = 0,
      monc = \<lparr>monmap = \<lparr>epoch = 0, monmap_rest = []\<rparr>, monc_rest = []\<rparr>,
      mdsc = \<lparr>mdsmap = None, mdsc_rest = []\<rparr>,
      osdc = \<lparr>osdmap = None, osdc_rest = []\<rparr>,
      msgr_inst_name = \<lparr>name_type = 0, name_num = 0\<rparr>,
      sb_s_root = None\<rparr>"

definition installing_handlers :: handlers where
  "installing_handlers =
     \<lparr>ceph_monmap_decode =
        (\<lambda>bs. if bs = [] then ERR_PTR (- 22)
              else Ptr \<lparr>epoch = of_nat (length bs), monmap_rest = bs\<rparr>),
      ceph_monc_handle_statfs_reply = (\<lambda>m msg. m),
      ceph_mdsc_handle_map = (\<lambda>m msg. m\<lparr>mdsmap := Some (front msg)\<rparr>),
      ceph_mdsc_handle_session = (\<lambda>m msg. m),
      ceph_mdsc_handle_reply = (\<lambda>m msg. m),
      ceph_mdsc_handle_forward = (\<lambda>m msg. m),
      ceph_mdsc_handle_filecaps = (\<lambda>m msg. m),
      ceph_osdc_handle_map = (\<lambda>m msg. m\<lparr>osdmap := Some (front msg)\<rparr>),
      ceph_osdc_handle_reply = (\<lambda>m msg. m)\<rparr>"

text \<open>Three messages: a metadata map, a monitor map that does not decode, a ping.\<close>

definition mds_announcement :: ceph_msg where
  "mds_announcement =
     \<lparr>hdr_type = CEPH_MSG_MDS_MAP, hdr_dst_name = \<lparr>name_type = 1, name_num = 4\<rparr>, front = [1]\<rparr>"

definition undecodable_monmap :: ceph_msg where
  "undecodable_monmap =
     \<lparr>hdr_type = CEPH_MSG_MON_MAP, hdr_dst_name = \<lparr>name_type = 1, name_num = 4\<rparr>, front = []\<rparr>"

definition ping :: ceph_msg where
  "ping = \<lparr>hdr_type = CEPH_MSG_PING, hdr_dst_name = \<lparr>name_type = 1, name_num = 4\<rparr>, front = []\<rparr>"

section \<open>Opening the root directory (client.c, lines 48-134)\<close>

definition O_DIRECTORY :: u32 where
  "O_DIRECTORY = 65536"

text \<open>
  The fields of the reply that \<^verbatim>\<open>open_root_inode\<close> reads: the result code (32 bits,
  stored into an \<^verbatim>\<open>int\<close>), the granted capabilities and their sequence number, the
  number of trace entries, and the inode number of trace entry 0.
\<close>

record ceph_mds_reply_info =
  head_result :: u32
  head_file_caps :: u32
  head_file_caps_seq :: u32
  trace_nr :: int
  trace_in0_ino :: u64

record ceph_mds_request =
  r_path :: string
  r_open_flags :: u32
  r_open_mode :: u32
  r_reply_info :: ceph_mds_reply_info
  r_session :: nat

record ceph_mount_args =
  path :: string
  num_mon :: int
  mon_addr :: "opaque list"

text \<open>
  The callees, all defined in other files. \<^verbatim>\<open>ceph_mdsc_do_request\<close> returns its error code
  and the request with the reply filled in; \<^verbatim>\<open>ceph_get_inode\<close> its error code and the
  inode; \<^verbatim>\<open>ceph_fill_trace\<close> its error code and what it leaves in \<^verbatim>\<open>mnt_inode\<close> and
  \<^verbatim>\<open>*pmnt_root\<close>, given the previous content of the latter.
\<close>

record vfs =
  ceph_mdsc_create_request :: "string \<Rightarrow> ceph_mds_request ptr"
  ceph_mdsc_do_request :: "ceph_mds_request \<Rightarrow> int \<times> ceph_mds_request"
  ceph_get_inode :: "u64 \<Rightarrow> int \<times> inode"
  d_alloc_root :: "inode \<Rightarrow> dentry option"
  ceph_fill_trace :: "ceph_mds_reply_info \<Rightarrow> dentry option \<Rightarrow> int \<times> inode option \<times> dentry option"
  ceph_add_cap :: "inode option \<Rightarrow> nat \<Rightarrow> u32 \<Rightarrow> u32 \<Rightarrow> unit ptr"

text \<open>
  The releases and the pin that \<^verbatim>\<open>open_root_inode\<close> performs itself, named after the
  statement: \<^verbatim>\<open>ceph_mdsc_put_request(req)\<close>, \<^verbatim>\<open>iput(root_inode)\<close>, \<^verbatim>\<open>iput(mnt_inode)\<close>
  (a no-op on \<^verbatim>\<open>NULL\<close>), and the increment of \<^verbatim>\<open>i_nr_by_mode[FILE_MODE_PIN]\<close>.
\<close>

datatype root_event =
    Put_request
  | Iput_root_inode inode
  | Iput_mnt_inode "inode option"
  | Pin_mnt_inode inode

text \<open>Where the function returns.\<close>

datatype exit_point =
    Return_create_failed
  | Return_request_failed
  | Label_out
  | Label_out2
  | Return_success

record root_result =
  ret :: int
  exit_at :: exit_point
  root_events :: "root_event list"
  alloc_fs :: bool
  s_root_after :: "dentry option"
  pmnt_root_after :: "dentry option"

text \<open>The code from label \<^verbatim>\<open>out\<close> on.\<close>

definition leave_out :: "int \<Rightarrow> bool \<Rightarrow> dentry option \<Rightarrow> dentry option \<Rightarrow> root_result" where
  "leave_out err af s_root pmnt_root =
     \<lparr>ret = err, exit_at = Label_out, root_events = [Put_request], alloc_fs = af,
      s_root_after = s_root, pmnt_root_after = pmnt_root\<rparr>"

text \<open>The code from label \<^verbatim>\<open>out2\<close> on, which falls through to \<^verbatim>\<open>out\<close>.\<close>

definition leave_out2 ::
    "int \<Rightarrow> bool \<Rightarrow> inode \<Rightarrow> inode option \<Rightarrow> dentry option \<Rightarrow> dentry option \<Rightarrow> root_result" where
  "leave_out2 err af root_inode mnt_inode s_root pmnt_root =
     \<lparr>ret = err, exit_at = Label_out2,
      root_events = (if af then [Iput_root_inode root_inode] else []) @
                    [Iput_mnt_inode mnt_inode] @ [Put_request],
      alloc_fs = af, s_root_after = s_root, pmnt_root_after = pmnt_root\<rparr>"

text \<open>Lines 102 to 124: from \<^verbatim>\<open>ceph_fill_trace\<close> to the successful return.\<close>

definition fill_and_add_cap ::
    "vfs \<Rightarrow> ceph_mds_request \<Rightarrow> bool \<Rightarrow> inode \<Rightarrow> dentry option \<Rightarrow> dentry option \<Rightarrow>
     kernel_fault + root_result" where
  "fill_and_add_cap v req af root_inode s_root pmnt_root =
     (let rinfo = r_reply_info req;
          (err, mnt_inode, pmnt_root1) = ceph_fill_trace v rinfo pmnt_root
      in if err < 0 then Inr (leave_out2 err af root_inode mnt_inode s_root pmnt_root1)
         else if pmnt_root1 = None
         then Inr (leave_out2 (- ENOMEM) af root_inode mnt_inode s_root pmnt_root1)
         else
           (case ceph_add_cap v mnt_inode (r_session req)
                   (head_file_caps rinfo) (head_file_caps_seq rinfo) of
              ERR_PTR e \<Rightarrow> Inr (leave_out2 e af root_inode mnt_inode s_root pmnt_root1)
            | Ptr cap \<Rightarrow>
                (case mnt_inode of
                   None \<Rightarrow> Inl Null_dereference
                 | Some mi \<Rightarrow>
                     Inr \<lparr>ret = 0, exit_at = Return_success,
                          root_events = [Pin_mnt_inode mi, Put_request], alloc_fs = af,
                          s_root_after = s_root, pmnt_root_after = pmnt_root1\<rparr>)))"

definition open_root_inode ::
    "vfs \<Rightarrow> ceph_client \<Rightarrow> ceph_mount_args \<Rightarrow> dentry option \<Rightarrow> kernel_fault + root_result" where
  "open_root_inode v client args pmnt_root =
     (case ceph_mdsc_create_request v (path args) of
        ERR_PTR e \<Rightarrow>
          Inr \<lparr>ret = e, exit_at = Return_create_failed, root_events = [], alloc_fs = False,
               s_root_after = sb_s_root client, pmnt_root_after = pmnt_root\<rparr>
      | Ptr req0 \<Rightarrow>
          (let (err, req) =
                 ceph_mdsc_do_request v (req0\<lparr>r_open_flags := O_DIRECTORY, r_open_mode := 0\<rparr>)
           in if err < 0
              then Inr \<lparr>ret = err, exit_at = Return_request_failed, root_events = [],
                        alloc_fs = False, s_root_after = sb_s_root client,
                        pmnt_root_after = pmnt_root\<rparr>
              else
                (let rinfo = r_reply_info req;
                     err = sint (head_result rinfo)
                 in if err \<noteq> 0 then Inr (leave_out err False (sb_s_root client) pmnt_root)
                    else if trace_nr rinfo = 0
                    then Inr (leave_out (- EINVAL) False (sb_s_root client) pmnt_root)
                    else
                      (case sb_s_root client of
                         None \<Rightarrow>
                           (let (err, root_inode) = ceph_get_inode v (trace_in0_ino rinfo)
                            in if err < 0 then Inr (leave_out err False None pmnt_root)
                               else
                                 (case d_alloc_root v root_inode of
                                    None \<Rightarrow>
                                      Inr (leave_out2 (- ENOMEM) True root_inode None None pmnt_root)
                                  | Some d \<Rightarrow>
                                      fill_and_add_cap v req True root_inode (Some d) pmnt_root))
                       | Some d \<Rightarrow>
                           (case d_inode d of
                              None \<Rightarrow> Inl BUG_ON_failed
                            | Some root_inode \<Rightarrow>
                                fill_and_add_cap v req False root_inode (Some d) pmnt_root)))))"

text \<open>
  Callees that follow a script: \<^verbatim>\<open>ceph_mdsc_do_request\<close> returns \<open>do_err\<close> and a reply
  with the given result code and trace length, and \<^verbatim>\<open>ceph_fill_trace\<close> fails with
  \<open>fill_err\<close> when that is negative; everything else succeeds.
\<close>

definition scripted_vfs :: "int \<Rightarrow> u32 \<Rightarrow> int \<Rightarrow> int \<Rightarrow> vfs" where
  "scripted_vfs do_err result nr fill_err =
     \<lparr>ceph_mdsc_create_request =
        (\<lambda>p. Ptr \<lparr>r_path = p, r_open_flags = 0, r_open_mode = 0,
                  r_reply_info = \<lparr>head_result = 0, head_file_caps = 0, head_file_caps_seq = 0,
                                  trace_nr = 0, trace_in0_ino = 0\<rparr>,
                  r_session = 0\<rparr>),
      ceph_mdsc_do_request =
        (\<lambda>req. (do_err,
               req\<lparr>r_reply_info := \<lparr>head_result = result, head_file_caps = 1,
                                      head_file_caps_seq = 1, trace_nr = nr,
                                      trace_in0_ino = 1\<rparr>\<rparr>)),
      ceph_get_inode = (\<lambda>ino. (0, unat ino)),
      d_alloc_root = (\<lambda>i. Some \<lparr>d_inode = Some i\<rparr>),
      ceph_fill_trace =
        (\<lambda>rinfo pm. if fill_err < 0 then (fill_err, None, pm)
                    else (0, Some 2, Some \<lparr>d_inode = Some 2\<rparr>)),
      ceph_add_cap = (\<lambda>mi sess caps seq. Ptr ())\<rparr>"

definition example_args :: ceph_mount_args where
  "example_args = \<lparr>path = ''/'', num_mon = 3, mon_addr = [[1], [2], [3]]\<rparr>"

text \<open>The same callees, except that \<^verbatim>\<open>ceph_add_cap\<close> returns an error pointer.\<close>

definition cap_refusing_vfs :: vfs where
  "cap_refusing_vfs =
     (scripted_vfs 0 0 1 0)\<lparr>ceph_add_cap := (\<lambda>mi sess caps seq. ERR_PTR (- 12))\<rparr>"

section \<open>Mounting (client.c, lines 139-179)\<close>

text \<open>
  \<^verbatim>\<open>char r\<close> holds the random byte; whether \<^verbatim>\<open>char\<close> is signed depends on the target, so
  the signedness is a parameter. The byte is promoted to \<^verbatim>\<open>int\<close> and \<^verbatim>\<open>%\<close> truncates towards
  zero.
\<close>

definition char_value :: "bool \<Rightarrow> u8 \<Rightarrow> int" where
  "char_value is_signed r = (if is_signed then sint r else uint r)"

definition which_mon :: "bool \<Rightarrow> u8 \<Rightarrow> int \<Rightarrow> int" where
  "which_mon is_signed r n = char_value is_signed r smod n"










text \<open>How many of the 256 byte values select monitor \<open>i\<close>.\<close>

definition all_bytes :: "u8 list" where
  "all_bytes = map of_nat [0..<256]"

definition selections :: "bool \<Rightarrow> int \<Rightarrow> int \<Rightarrow> nat" where
  "selections is_signed n i = length (filter (\<lambda>r. which_mon is_signed r n = i) all_bytes)"







section \<open>Theorems about the client counter\<close>

lemma transition_of_Acquire:
  "transition_of Acquire s =
     \<lparr>count_before = sint (ceph_num_clients s),
      actions_run = (if ceph_num_clients s = 0 then [Workqueue_init] else []),
      count_after = sint (ceph_num_clients s + 1)\<rparr>"
  by (simp add: transition_of_def get_client_counter_def Let_def)

lemma transition_of_Release:
  "transition_of Release s =
     \<lparr>count_before = sint (ceph_num_clients s),
      actions_run = (if ceph_num_clients s - 1 = 0 then [Workqueue_shutdown] else []),
      count_after = sint (ceph_num_clients s - 1)\<rparr>"
  by (simp add: transition_of_def put_client_counter_def Let_def)

lemma get_client_counter_count:
  "ceph_num_clients (get_client_counter s) = ceph_num_clients s + 1"
  by (simp add: get_client_counter_def Let_def)

lemma put_client_counter_count:
  "ceph_num_clients (put_client_counter s) = ceph_num_clients s - 1"
  by (simp add: put_client_counter_def Let_def)

lemma sint_succ:
  fixes c :: "32 word"
  assumes "0 \<le> sint c" "sint c < 2147483647"
  shows "sint (c + 1) = sint c + 1"
proof -
  have "sint (c + 1) = signed_take_bit 31 (sint c + 1)"
    by (simp add: sint_word_ariths)
  also have "\<dots> = sint c + 1"
    using assms by (intro signed_take_bit_int_eq_self) simp_all
  finally show ?thesis .
qed

lemma sint_pred:
  fixes c :: "32 word"
  assumes "0 < sint c"
  shows "sint (c - 1) = sint c - 1"
proof -
  have "sint c < 2 ^ 31" using sint_lt [of c] by simp
  have "sint (c - 1) = signed_take_bit 31 (sint c - 1)"
    by (simp add: sint_word_ariths)
  also have "\<dots> = sint c - 1"
    using assms \<open>sint c < 2 ^ 31\<close> by (intro signed_take_bit_int_eq_self) simp_all
  finally show ?thesis .
qed

lemma zero_iff_sint: "(c :: 32 word) = 0 \<longleftrightarrow> sint c = 0"
  by (simp add: signed_eq_0_iff)

text \<open>
  The counter operations of the two lifecycle functions are the ones listed for them, so a
  history of creations and destructions is a list of such operations.
\<close>

lemma ceph_create_client_counter:
  "snd (ceph_create_client env s_root cs) =
     fold counter_step (ceph_create_client_ops (create_outcome_of env)) cs"
  by (simp add: ceph_create_client_def create_outcome_of_def Let_def split_def split: ptr.split)

lemma ceph_destroy_client_counter:
  "ceph_destroy_client cl cs = fold counter_step ceph_destroy_client_ops cs"
  by (simp add: ceph_destroy_client_def ceph_destroy_client_ops_def)

lemma counter_run_ok:
  "releases_matched held ops \<Longrightarrow> held_at_most INT_MAX held ops \<Longrightarrow> held \<le> INT_MAX \<Longrightarrow>
   sint (ceph_num_clients s) = int held \<Longrightarrow>
   \<forall>t \<in> set (counter_run ops s). transition_ok t"
proof (induction held ops arbitrary: s rule: releases_matched.induct)
  case (1 held)
  then show ?case by simp
next
  case (2 held ops)
  from "2.prems"(2) have room: "Suc held \<le> INT_MAX" and rest: "held_at_most INT_MAX (Suc held) ops"
    by simp_all
  have up: "sint (ceph_num_clients s + 1) = int held + 1"
    using "2.prems"(4) room by (simp add: sint_succ INT_MAX_def)
  have "transition_ok (transition_of Acquire s)"
    using "2.prems"(4) up by (simp add: transition_of_Acquire transition_ok_def zero_iff_sint)
  moreover have "\<forall>t \<in> set (counter_run ops (counter_step Acquire s)). transition_ok t"
    using "2.prems"(1) rest room up by (intro "2.IH") (simp_all add: get_client_counter_count)
  ultimately show ?case by simp
next
  case (3 held ops)
  from "3.prems"(1) have pos: "held > 0" and rest: "releases_matched (held - 1) ops"
    by simp_all
  from "3.prems"(2) have lim: "held_at_most INT_MAX (held - 1) ops" by simp
  have down: "sint (ceph_num_clients s - 1) = int held - 1"
    using "3.prems"(4) pos by (simp add: sint_pred)
  have "transition_ok (transition_of Release s)"
    using "3.prems"(4) pos down
    by (auto simp add: transition_of_Release transition_ok_def zero_iff_sint)
  moreover have "\<forall>t \<in> set (counter_run ops (counter_step Release s)). transition_ok t"
    using rest lim "3.prems"(3) pos down
    by (intro "3.IH") (simp_all add: put_client_counter_count of_nat_diff)
  ultimately show ?case by simp
qed

text \<open>
  Claim C9, as amended. In every interleaving of acquires and releases in which each release
  follows the acquire of its own aggregate and never more than \<open>INT_MAX\<close> aggregates are
  counted at once, starting from an empty counter, the work queues are initialised exactly
  on the steps taking the count from 0 to 1 and shut down exactly on the steps taking it
  from 1 to 0; the count is never negative, so no shutdown happens while an aggregate is
  still counted.
\<close>

theorem client_counter_transitions:
  assumes "releases_matched 0 ops" and "held_at_most INT_MAX 0 ops"
  shows "\<forall>t \<in> set (counter_run ops initial_counter).
           (Workqueue_init \<in> set (actions_run t)) = (count_before t = 0 \<and> count_after t = 1) \<and>
           (Workqueue_shutdown \<in> set (actions_run t)) = (count_before t = 1 \<and> count_after t = 0) \<and>
           0 \<le> count_before t \<and> 0 \<le> count_after t"
proof -
  have "\<forall>t \<in> set (counter_run ops initial_counter). transition_ok t"
    using assms by (rule counter_run_ok) (simp_all add: initial_counter_def)
  then show ?thesis by (simp add: transition_ok_def)
qed

theorem client_counter_transitions_witness:
  "releases_matched 0 [Acquire, Acquire, Release, Release] \<and>
   held_at_most INT_MAX 0 [Acquire, Acquire, Release, Release] \<and>
   map actions_run (counter_run [Acquire, Acquire, Release, Release] initial_counter) =
     [[Workqueue_init], [], [], [Workqueue_shutdown]] \<and>
   Workqueue_shutdown \<in> set (actions_run (last (counter_run [Acquire, Acquire, Release, Release] initial_counter))) \<and>
   count_before (last (counter_run [Acquire, Acquire, Release, Release] initial_counter)) = 1 \<and>
   count_after (last (counter_run [Acquire, Acquire, Release, Release] initial_counter)) = 0"
proof -
  have h: "releases_matched 0 [Acquire, Acquire, Release, Release]"
    by simp
  have b: "held_at_most INT_MAX 0 [Acquire, Acquire, Release, Release]"
    by (simp add: INT_MAX_def)
  have run: "map actions_run (counter_run [Acquire, Acquire, Release, Release] initial_counter) =
     [[Workqueue_init], [], [], [Workqueue_shutdown]]"
    by (simp add: transition_of_Acquire transition_of_Release initial_counter_def
        get_client_counter_def put_client_counter_def)
  have mem: "last (counter_run [Acquire, Acquire, Release, Release] initial_counter)
      \<in> set (counter_run [Acquire, Acquire, Release, Release] initial_counter)"
    by simp
  have sh: "Workqueue_shutdown \<in> set (actions_run (last (counter_run [Acquire, Acquire, Release, Release] initial_counter)))"
    by (simp add: transition_of_Acquire transition_of_Release initial_counter_def
        get_client_counter_def put_client_counter_def)
  from client_counter_transitions [OF h b] mem sh
  have "count_before (last (counter_run [Acquire, Acquire, Release, Release] initial_counter)) = 1 \<and>
        count_after (last (counter_run [Acquire, Acquire, Release, Release] initial_counter)) = 0"
    by blast
  with h b run sh show ?thesis by blast
qed

lemma releases_matched_acquires: "releases_matched held (replicate n Acquire)"
  by (induction n arbitrary: held) simp_all

lemma counter_run_acquires_last:
  "count_after (last (counter_run (replicate (Suc n) Acquire) s)) =
     sint (ceph_num_clients s + of_nat (Suc n))"
proof (induction n arbitrary: s)
  case 0
  show ?case by (simp add: transition_of_Acquire)
next
  case (Suc n)
  have "counter_run (replicate (Suc (Suc n)) Acquire) s =
      transition_of Acquire s # counter_run (replicate (Suc n) Acquire) (get_client_counter s)"
    by simp
  moreover have "counter_run (replicate (Suc n) Acquire) (get_client_counter s) \<noteq> []"
    by simp
  ultimately have "last (counter_run (replicate (Suc (Suc n)) Acquire) s) =
      last (counter_run (replicate (Suc n) Acquire) (get_client_counter s))"
    by (simp only: last.simps if_False)
  then show ?case
    by (simp only: Suc.IH get_client_counter_count) (simp add: ac_simps)
qed

text \<open>
  Claim C9 as stated fails: the counter is an \<^verbatim>\<open>int\<close>, and the acquire of the
  2147483648th aggregate, none having been released, takes the count from \<open>INT_MAX\<close> to
  -2147483648.
\<close>

theorem client_count_wraps_negative:
  "releases_matched 0 (replicate (Suc INT_MAX) Acquire) \<and>
   count_after (last (counter_run (replicate (Suc INT_MAX) Acquire) initial_counter)) =
     - 2147483648"
proof -
  have "sint (ceph_num_clients initial_counter + of_nat (Suc INT_MAX)) = - 2147483648"
    by (simp add: initial_counter_def INT_MAX_def)
  then have "count_after (last (counter_run (replicate (Suc INT_MAX) Acquire) initial_counter)) =
     - 2147483648"
    by (simp only: counter_run_acquires_last)
  with releases_matched_acquires [of 0 "Suc INT_MAX"] show ?thesis by (rule conjI)
qed

section \<open>Theorems about the map tracker\<close>

lemma upt4: "[0..<4] = [0,1,2,3]" by (simp add: upt_rec)

lemma find_first_zero_bit_4_3:
  "find_first_zero_bit w 4 = 3 \<longleftrightarrow> bit w 0 \<and> bit w 1 \<and> bit w 2 \<and> \<not> bit w 3"
  by (simp add: find_first_zero_bit_def upt4)

lemma seven_mask: "(7 :: u64) = mask 3"
  by (simp add: mask_eq_exp_minus_1)

lemma bit_seven: "bit (7 :: u64) n \<longleftrightarrow> n < 3"
  by (auto simp add: seven_mask bit_mask_iff)

lemma eq_seven_iff: "(w :: u64) = 7 \<longleftrightarrow> (\<forall>n. bit w n \<longleftrightarrow> n < 3)"
proof
  assume "w = 7"
  then show "\<forall>n. bit w n \<longleftrightarrow> n < 3" by (simp only: bit_seven) simp
next
  assume "\<forall>n. bit w n \<longleftrightarrow> n < 3"
  then have "bit w n = bit (7 :: u64) n" for n by (simp only: bit_seven)
  then show "w = 7" by (rule bit_eqI)
qed

lemma less3: "(n::nat) < 3 \<longleftrightarrow> n = 0 \<or> n = 1 \<or> n = 2"
  by auto

lemma low3_set_bit: "low3 w \<Longrightarrow> n < 3 \<Longrightarrow> low3 (set_bit n w)"
  by (auto simp add: low3_def bit_set_bit_iff)

lemma low3_fired:
  assumes "low3 w"
  shows "find_first_zero_bit w 4 = 3 \<longleftrightarrow> w = 7"
proof -
  have "\<not> bit w 3" using assms by (auto simp: low3_def)
  moreover have "(\<forall>n. bit w n \<longleftrightarrow> n < 3) \<longleftrightarrow> bit w 0 \<and> bit w 1 \<and> bit w 2"
    using assms by (auto simp: low3_def less3)
  ultimately show ?thesis
    by (simp add: find_first_zero_bit_4_3 eq_seven_iff)
qed


lemma got_first_map_mounting:
  "mounting (fst (got_first_map c n)) = set_bit n (mounting c)"
  by (simp add: got_first_map_def Let_def)

lemma got_first_map_fst:
  "fst (got_first_map c n) = c\<lparr>mounting := set_bit n (mounting c)\<rparr>"
  by (simp add: got_first_map_def Let_def)

lemma got_first_map_snd:
  "snd (got_first_map c n) =
     (if find_first_zero_bit (set_bit n (mounting c)) 4 = 3 then [Complete_mount_completion] else [])"
  by (simp add: got_first_map_def Let_def)

lemma got_first_map_calls_Cons:
  "got_first_map_calls c (n # ns) =
     \<lparr>mounting_before = mounting c,
      completed = (find_first_zero_bit (set_bit n (mounting c)) 4 = 3),
      mounting_after = set_bit n (mounting c)\<rparr> # got_first_map_calls (fst (got_first_map c n)) ns"
  by (simp add: got_first_map_def Let_def)

lemma tracker_run:
  assumes "low3 (mounting c)" "distinct ns" "\<forall>n \<in> set ns. n < 3 \<and> \<not> bit (mounting c) n"
  shows "(\<forall>t \<in> set (got_first_map_calls c ns). completed t = transition_to_complete t) \<and>
         length (filter completed (got_first_map_calls c ns)) =
           (if ns \<noteq> [] \<and> (\<forall>i<3. bit (mounting c) i \<or> i \<in> set ns) then 1 else 0)"
  using assms
proof (induction ns arbitrary: c)
  case Nil
  then show ?case by simp
next
  case (Cons n ns)
  let ?m = "mounting c" and ?m' = "set_bit n (mounting c)"
  let ?c' = "fst (got_first_map c n)"
  from Cons.prems have n3: "n < 3" and nb: "\<not> bit ?m n" by simp_all
  have low': "low3 ?m'" using Cons.prems(1) n3 by (rule low3_set_bit)
  have fired: "find_first_zero_bit ?m' 4 = 3 \<longleftrightarrow> ?m' = 7" using low' by (rule low3_fired)
  have m7: "?m \<noteq> 7" using nb n3 by (auto simp: eq_seven_iff)
  have mc': "mounting ?c' = ?m'" by (rule got_first_map_mounting)
  have rest: "\<forall>k \<in> set ns. k < 3 \<and> \<not> bit (mounting ?c') k"
    using Cons.prems by (auto simp: mc' bit_set_bit_iff)
  have IH: "(\<forall>t \<in> set (got_first_map_calls ?c' ns). completed t = transition_to_complete t) \<and>
         length (filter completed (got_first_map_calls ?c' ns)) =
           (if ns \<noteq> [] \<and> (\<forall>i<3. bit (mounting ?c') i \<or> i \<in> set ns) then 1 else 0)"
    using low' Cons.prems(2) rest by (intro Cons.IH) (simp_all add: mc')
  have cover: "(\<forall>i<3. bit ?m' i \<or> i \<in> set ns) \<longleftrightarrow> (\<forall>i<3. bit ?m i \<or> i \<in> set (n # ns))"
    using n3 by (auto simp: bit_set_bit_iff dest: bit_imp_le_length)
  have m'7: "?m' = 7 \<longleftrightarrow> (\<forall>i<3. bit ?m' i)"
    using low' by (auto simp: eq_seven_iff low3_def)
  show ?case
  proof (cases "?m' = 7")
    case True
    have "ns = []"
    proof (rule ccontr)
      assume "ns \<noteq> []"
      then obtain k where "k \<in> set ns" by (cases ns) auto
      with rest have "k < 3" "\<not> bit ?m' k" by (simp_all add: mc')
      with True show False by (simp only: bit_seven) simp
    qed
    with True m7 fired cover m'7 show ?thesis
      by (simp add: got_first_map_calls_Cons transition_to_complete_def del: got_first_map_calls.simps(2))
  next
    case False
    have "\<not> (\<forall>i<3. bit ?m i \<or> i \<in> set (n # ns))" if "ns = []"
    proof -
      from that cover have "(\<forall>i<3. bit ?m' i) \<longleftrightarrow> (\<forall>i<3. bit ?m i \<or> i \<in> set (n # ns))"
        by simp
      with False m'7 show ?thesis by blast
    qed
    with False fired IH cover show ?thesis
      by (auto simp add: got_first_map_calls_Cons transition_to_complete_def mc' simp del: got_first_map_calls.simps(2))
  qed
qed

lemma below3: "{i::nat. i < 3} = {0, 1, 2}"
  by auto

text \<open>
  Claim C2. On an aggregate whose bitmask is 0, as \<^verbatim>\<open>ceph_create_client\<close> leaves it, in any
  sequence of \<^verbatim>\<open>got_first_map\<close> calls in which each of 0, 1, 2 occurs at most once,
  \<^verbatim>\<open>complete\<close> is invoked exactly on the call that takes the bitmask from a value other
  than 7 to 7, and so at most once: once if all three numbers occur, never otherwise.
\<close>

theorem mount_completion_fires_once:
  assumes "distinct nums" and "set nums \<subseteq> {0, 1, 2}" and "mounting client = 0"
  shows "(\<forall>t \<in> set (got_first_map_calls client nums).
            completed t = (mounting_before t \<noteq> 7 \<and> mounting_after t = 7)) \<and>
         length (filter completed (got_first_map_calls client nums)) =
           (if set nums = {0, 1, 2} then 1 else 0)"
proof -
  have low: "low3 (mounting client)" using assms(3) by (simp add: low3_def)
  have nobit: "\<not> bit (mounting client) n" for n by (simp add: assms(3))
  have sub: "set nums \<subseteq> {i. i < 3}" using assms(2) by (simp only: below3)
  have fresh: "\<forall>n \<in> set nums. n < 3 \<and> \<not> bit (mounting client) n"
    using sub nobit by blast
  have "(\<forall>i<3. i \<in> set nums) \<longleftrightarrow> {i. i < 3} \<subseteq> set nums" by blast
  with sub have "(\<forall>i<3. i \<in> set nums) \<longleftrightarrow> set nums = {i. i < 3}" by blast
  then have all: "(\<forall>i<3. i \<in> set nums) \<longleftrightarrow> set nums = {0, 1, 2}" by (simp only: below3)
  have ne: "set nums = {0, 1, 2} \<Longrightarrow> nums \<noteq> []" by auto
  have cover: "(nums \<noteq> [] \<and> (\<forall>i<3. bit (mounting client) i \<or> i \<in> set nums)) \<longleftrightarrow>
      set nums = {0, 1, 2}"
    using all ne nobit by blast
  have run: "(\<forall>t \<in> set (got_first_map_calls client nums). completed t = transition_to_complete t) \<and>
         length (filter completed (got_first_map_calls client nums)) =
           (if nums \<noteq> [] \<and> (\<forall>i<3. bit (mounting client) i \<or> i \<in> set nums) then 1 else 0)"
    using low assms(1) fresh by (rule tracker_run)
  show ?thesis
    using run unfolding cover transition_to_complete_def by blast
qed

lemma calls_example:
  "map completed (got_first_map_calls fresh_client [2, 0, 1]) = [False, False, True]"
  by (simp add: got_first_map_calls_Cons got_first_map_fst fresh_client_def
      find_first_zero_bit_4_3 bit_set_bit_iff del: got_first_map_calls.simps(2))

theorem mount_completion_fires_once_witness:
  "distinct [2, 0, 1 :: nat] \<and> set [2, 0, 1 :: nat] \<subseteq> {0, 1, 2} \<and> mounting fresh_client = 0 \<and>
   map completed (got_first_map_calls fresh_client [2, 0, 1]) = [False, False, True] \<and>
   length (filter completed (got_first_map_calls fresh_client [2, 0, 1])) = 1"
proof -
  have d: "distinct [2, 0, 1 :: nat]" by simp
  have s: "set [2, 0, 1 :: nat] \<subseteq> {0, 1, 2}" by simp
  have m: "mounting fresh_client = 0" by (simp add: fresh_client_def)
  have e: "set [2, 0, 1 :: nat] = {0, 1, 2}" by auto
  from mount_completion_fires_once [OF d s m] e
  have "length (filter completed (got_first_map_calls fresh_client [2, 0, 1])) = 1"
    by simp
  with d s m calls_example show ?thesis by blast
qed

section \<open>Theorems about the dispatcher\<close>

lemma first_map_edge_fst:
  "fst (first_map_edge had has n c) =
     (if \<not> had \<and> has then c\<lparr>mounting := set_bit n (mounting c)\<rparr> else c)"
  by (simp add: first_map_edge_def split_def Let_def got_first_map_fst)

lemma first_map_edge_snd:
  "snd (first_map_edge had has n c) =
     (if \<not> had \<and> has then Got_first_map_called n # snd (got_first_map c n) else [])"
  by (simp add: first_map_edge_def split_def Let_def)

lemma handle_monmap_mounting:
  "mounting (fst (handle_monmap h c msg)) = mounting c"
  by (simp add: handle_monmap_def Let_def split: ptr.split)

lemma handle_monmap_events:
  "snd (handle_monmap h c msg) =
     (case ceph_monmap_decode h (front msg) of ERR_PTR e \<Rightarrow> [Derr_monmap_decode e] | Ptr new \<Rightarrow> [])"
  by (simp add: handle_monmap_def Let_def split: ptr.split)

lemma deliver_MON_MAP:
  "hdr_type msg = CEPH_MSG_MON_MAP \<Longrightarrow>
   deliver h c msg =
     (let c1 = fst (handle_monmap h c msg);
          r = first_map_edge (epoch (monmap (monc c)) \<noteq> 0) (epoch (monmap (monc c1)) \<noteq> 0) 0 c1
      in (fst r, snd (handle_monmap h c msg) @ snd r))"
  by (simp add: deliver_def Let_def split_def)

lemma deliver_MDS_MAP:
  "hdr_type msg = CEPH_MSG_MDS_MAP \<Longrightarrow>
   deliver h c msg =
     (let c1 = c\<lparr>mdsc := ceph_mdsc_handle_map h (mdsc c) msg\<rparr>
      in first_map_edge (mdsmap (mdsc c) \<noteq> None) (mdsmap (mdsc c1) \<noteq> None) 1 c1)"
  by (simp add: deliver_def Let_def)

lemma deliver_OSD_MAP:
  "hdr_type msg = CEPH_MSG_OSD_MAP \<Longrightarrow>
   deliver h c msg =
     (let c1 = c\<lparr>osdc := ceph_osdc_handle_map h (osdc c) msg\<rparr>
      in first_map_edge (osdmap (osdc c) \<noteq> None) (osdmap (osdc c1) \<noteq> None) 2 c1)"
  by (simp add: deliver_def Let_def)

lemma ceph_dispatch_fst: "fst (ceph_dispatch h c msg) = fst (deliver h c msg)"
  by (simp add: ceph_dispatch_def split_def Let_def)

lemma ceph_dispatch_snd: "snd (ceph_dispatch h c msg) = snd (deliver h c msg) @ [Msg_put]"
  by (simp add: ceph_dispatch_def split_def Let_def)

lemma deliver_no_put: "Msg_put \<notin> set (snd (deliver h c msg))"
  by (cases "hdr_type msg")
     (simp_all add: deliver_def Let_def split_def first_map_edge_snd got_first_map_snd
        handle_monmap_events split: ptr.split)

lemma deliver_unknown:
  "\<not> has_handler (hdr_type msg) \<Longrightarrow> deliver h c msg = (c, [Derr_unknown_type])"
  by (cases "hdr_type msg") (simp_all add: deliver_def has_handler_def)

text \<open>
  Claim C5. Whatever the message and whichever handler runs, \<^verbatim>\<open>ceph_dispatch\<close> calls
  \<^verbatim>\<open>ceph_msg_put\<close> exactly once, as its last action; for a type tag without a case it
  logs the soft error, leaves the aggregate as it was and returns normally.
\<close>

theorem dispatch_releases_message_once:
  "count_list (snd (ceph_dispatch h client msg)) Msg_put = 1 \<and>
   last (snd (ceph_dispatch h client msg)) = Msg_put \<and>
   (\<not> has_handler (hdr_type msg) \<longrightarrow>
      ceph_dispatch h client msg = (client, [Derr_unknown_type, Msg_put]))"
proof -
  have "count_list (snd (deliver h client msg)) Msg_put = 0"
    using deliver_no_put [of h client msg] by (simp add: count_list_0_iff)
  then have "count_list (snd (ceph_dispatch h client msg)) Msg_put = 1"
    by (simp add: ceph_dispatch_snd)
  moreover have "last (snd (ceph_dispatch h client msg)) = Msg_put"
    by (simp add: ceph_dispatch_snd)
  moreover have "ceph_dispatch h client msg = (client, [Derr_unknown_type, Msg_put])"
    if "\<not> has_handler (hdr_type msg)"
    using deliver_unknown [OF that, of h client] by (simp add: ceph_dispatch_def)
  ultimately show ?thesis by blast
qed

theorem dispatch_releases_message_once_witness:
  "\<not> has_handler (hdr_type ping) \<and>
   ceph_dispatch installing_handlers fresh_client ping = (fresh_client, [Derr_unknown_type, Msg_put]) \<and>
   count_list (snd (ceph_dispatch installing_handlers fresh_client ping)) Msg_put = 1"
proof -
  have "\<not> has_handler (hdr_type ping)" by (simp add: ping_def has_handler_def)
  with dispatch_releases_message_once [of installing_handlers fresh_client ping]
  show ?thesis by blast
qed

text \<open>
  Claim C10. When \<^verbatim>\<open>ceph_monmap_decode\<close> fails on a monitor-map announcement, the dispatch
  leaves the whole aggregate unchanged (the stored map and its epoch, \<^verbatim>\<open>whoami\<close>, the
  messenger's name, the readiness bitmask) and invokes neither \<^verbatim>\<open>got_first_map\<close> nor
  \<^verbatim>\<open>complete\<close>: it only logs the error and releases the message.
\<close>

theorem failed_monmap_decode_changes_nothing:
  assumes "hdr_type msg = CEPH_MSG_MON_MAP"
    and "ceph_monmap_decode h (front msg) = ERR_PTR err"
  shows "ceph_dispatch h client msg = (client, [Derr_monmap_decode err, Msg_put])"
  using assms
  by (simp add: ceph_dispatch_def deliver_def handle_monmap_def first_map_edge_def Let_def)

theorem failed_monmap_decode_changes_nothing_witness:
  "hdr_type undecodable_monmap = CEPH_MSG_MON_MAP \<and>
   ceph_monmap_decode installing_handlers (front undecodable_monmap) = ERR_PTR (- 22) \<and>
   ceph_dispatch installing_handlers fresh_client undecodable_monmap =
     (fresh_client, [Derr_monmap_decode (- 22), Msg_put])"
proof -
  have t: "hdr_type undecodable_monmap = CEPH_MSG_MON_MAP"
    by (simp add: undecodable_monmap_def)
  have d: "ceph_monmap_decode installing_handlers (front undecodable_monmap) = ERR_PTR (- 22)"
    by (simp add: undecodable_monmap_def installing_handlers_def)
  from failed_monmap_decode_changes_nothing [OF t d] t d show ?thesis by blast
qed

text \<open>
  Claim C1. For each of the three map announcements, the dispatch calls
  \<^verbatim>\<open>got_first_map\<close> for that subsystem, setting its readiness bit, if and only if the local
  map was absent (epoch 0 for the monitor map) before the handler ran and is present after
  it; otherwise the bitmask is unchanged. When the map was already present, the readiness
  logic is not invoked at all.
\<close>

theorem readiness_bit_set_on_first_map:
  assumes "hdr_type msg = kind_tag k"
  shows "(Got_first_map_called (kind_bit k) \<in> set (snd (ceph_dispatch h client msg))) =
           (\<not> map_present k client \<and> map_present k (fst (ceph_dispatch h client msg))) \<and>
         mounting (fst (ceph_dispatch h client msg)) =
           (if \<not> map_present k client \<and> map_present k (fst (ceph_dispatch h client msg))
            then set_bit (kind_bit k) (mounting client) else mounting client) \<and>
         (map_present k client \<longrightarrow>
            (\<forall>n. Got_first_map_called n \<notin> set (snd (ceph_dispatch h client msg))) \<and>
            Complete_mount_completion \<notin> set (snd (ceph_dispatch h client msg)))"
proof (cases k)
  case Monitor_map
  with assms have t: "hdr_type msg = CEPH_MSG_MON_MAP" by simp
  show ?thesis
    unfolding ceph_dispatch_fst ceph_dispatch_snd deliver_MON_MAP [OF t] Monitor_map
    by (auto simp add: Let_def first_map_edge_fst first_map_edge_snd got_first_map_snd
        handle_monmap_events handle_monmap_mounting split: ptr.split)
next
  case Metadata_map
  with assms have t: "hdr_type msg = CEPH_MSG_MDS_MAP" by simp
  show ?thesis
    unfolding ceph_dispatch_fst ceph_dispatch_snd deliver_MDS_MAP [OF t] Metadata_map
    by (auto simp add: Let_def first_map_edge_fst first_map_edge_snd got_first_map_snd)
next
  case Storage_map
  with assms have t: "hdr_type msg = CEPH_MSG_OSD_MAP" by simp
  show ?thesis
    unfolding ceph_dispatch_fst ceph_dispatch_snd deliver_OSD_MAP [OF t] Storage_map
    by (auto simp add: Let_def first_map_edge_fst first_map_edge_snd got_first_map_snd)
qed

theorem readiness_bit_set_on_first_map_witness:
  "hdr_type mds_announcement = kind_tag Metadata_map \<and>
   \<not> map_present Metadata_map fresh_client \<and>
   map_present Metadata_map (fst (ceph_dispatch installing_handlers fresh_client mds_announcement)) \<and>
   Got_first_map_called 1 \<in> set (snd (ceph_dispatch installing_handlers fresh_client mds_announcement)) \<and>
   mounting (fst (ceph_dispatch installing_handlers fresh_client mds_announcement)) = 2"
proof -
  have t: "hdr_type mds_announcement = kind_tag Metadata_map"
    by (simp add: mds_announcement_def)
  have a: "\<not> map_present Metadata_map fresh_client"
    by (simp add: fresh_client_def)
  have b: "map_present Metadata_map (fst (ceph_dispatch installing_handlers fresh_client mds_announcement))"
    by (simp add: ceph_dispatch_fst deliver_MDS_MAP mds_announcement_def first_map_edge_fst
        installing_handlers_def fresh_client_def Let_def)
  have m: "mounting fresh_client = 0" by (simp add: fresh_client_def)
  from readiness_bit_set_on_first_map [OF t, of installing_handlers fresh_client] a b m
  have "Got_first_map_called 1 \<in> set (snd (ceph_dispatch installing_handlers fresh_client mds_announcement)) \<and>
     mounting (fst (ceph_dispatch installing_handlers fresh_client mds_announcement)) = 2"
    by simp
  with t a b show ?thesis by blast
qed

section \<open>Theorems about opening the root directory\<close>

lemma open_root_inode_after_reply:
  assumes "ceph_mdsc_create_request v (path args) = Ptr req0"
    and "ceph_mdsc_do_request v (req0\<lparr>r_open_flags := O_DIRECTORY, r_open_mode := 0\<rparr>) = (err, req)"
    and "0 \<le> err"
  shows "open_root_inode v client args pmnt_root =
     (let rinfo = r_reply_info req in
      if sint (head_result rinfo) \<noteq> 0
      then Inr (leave_out (sint (head_result rinfo)) False (sb_s_root client) pmnt_root)
      else if trace_nr rinfo = 0
      then Inr (leave_out (- EINVAL) False (sb_s_root client) pmnt_root)
      else
        (case sb_s_root client of
           None \<Rightarrow>
             (if fst (ceph_get_inode v (trace_in0_ino rinfo)) < 0
              then Inr (leave_out (fst (ceph_get_inode v (trace_in0_ino rinfo))) False None pmnt_root)
              else
                (case d_alloc_root v (snd (ceph_get_inode v (trace_in0_ino rinfo))) of
                   None \<Rightarrow>
                     Inr (leave_out2 (- ENOMEM) True (snd (ceph_get_inode v (trace_in0_ino rinfo)))
                            None None pmnt_root)
                 | Some d \<Rightarrow>
                     fill_and_add_cap v req True (snd (ceph_get_inode v (trace_in0_ino rinfo)))
                       (Some d) pmnt_root))
         | Some d \<Rightarrow>
             (case d_inode d of
                None \<Rightarrow> Inl BUG_ON_failed
              | Some root_inode \<Rightarrow> fill_and_add_cap v req False root_inode (Some d) pmnt_root)))"
  using assms by (simp add: open_root_inode_def Let_def split_def split: option.split)

lemma fill_and_add_cap_cases:
  assumes "fill_and_add_cap v req af ri sr pm = Inr r"
  shows "alloc_fs r = af \<and>
     ((exit_at r = Return_success \<and> (\<exists>mi. root_events r = [Pin_mnt_inode mi, Put_request]) \<and> ret r = 0) \<or>
      (exit_at r = Label_out2 \<and>
       root_events r = (if af then [Iput_root_inode ri] else []) @
         [Iput_mnt_inode (fst (snd (ceph_fill_trace v (r_reply_info req) pm))), Put_request]))"
  using assms
  by (auto simp add: fill_and_add_cap_def Let_def split_def leave_out2_def
      split: if_splits ptr.splits option.splits)

text \<open>
  Claim C7. Once the reply has been received, a result code of zero together with a trace
  of zero entries makes \<^verbatim>\<open>open_root_inode\<close> leave through \<^verbatim>\<open>out\<close> with \<^verbatim>\<open>-EINVAL\<close>;
  and whenever it returns through its success exit, the reply had result code zero and a
  trace that was not empty.
\<close>

theorem empty_trace_is_invalid_reply:
  assumes "ceph_mdsc_create_request v (path args) = Ptr req0"
    and "ceph_mdsc_do_request v (req0\<lparr>r_open_flags := O_DIRECTORY, r_open_mode := 0\<rparr>) = (err, req)"
    and "0 \<le> err"
  shows "(head_result (r_reply_info req) = 0 \<and> trace_nr (r_reply_info req) = 0 \<longrightarrow>
            (\<exists>r. open_root_inode v client args pmnt_root = Inr r \<and>
                 ret r = - EINVAL \<and> exit_at r = Label_out)) \<and>
         (\<forall>r. open_root_inode v client args pmnt_root = Inr r \<and> exit_at r = Return_success \<longrightarrow>
            head_result (r_reply_info req) = 0 \<and> trace_nr (r_reply_info req) \<noteq> 0)"
proof -
  note run = open_root_inode_after_reply [OF assms, of client pmnt_root]
  have a: "\<exists>r. open_root_inode v client args pmnt_root = Inr r \<and> ret r = - EINVAL \<and> exit_at r = Label_out"
    if "head_result (r_reply_info req) = 0" "trace_nr (r_reply_info req) = 0"
    using that by (simp add: run Let_def leave_out_def)
  have b: "head_result (r_reply_info req) = 0 \<and> trace_nr (r_reply_info req) \<noteq> 0"
    if "open_root_inode v client args pmnt_root = Inr r" "exit_at r = Return_success" for r
  proof -
    have "sint (head_result (r_reply_info req)) = 0"
      using that by (auto simp add: run Let_def leave_out_def split: if_splits)
    moreover have "trace_nr (r_reply_info req) \<noteq> 0"
      using that by (auto simp add: run Let_def leave_out_def split: if_splits)
    ultimately show ?thesis by (simp add: signed_eq_0_iff)
  qed
  from a b show ?thesis by blast
qed

theorem empty_trace_is_invalid_reply_witness:
  "(\<exists>req0 req err.
      ceph_mdsc_create_request (scripted_vfs 0 0 0 0) (path example_args) = Ptr req0 \<and>
      ceph_mdsc_do_request (scripted_vfs 0 0 0 0)
        (req0\<lparr>r_open_flags := O_DIRECTORY, r_open_mode := 0\<rparr>) = (err, req) \<and> 0 \<le> err \<and>
      head_result (r_reply_info req) = 0 \<and> trace_nr (r_reply_info req) = 0) \<and>
   (\<exists>r. open_root_inode (scripted_vfs 0 0 0 0) fresh_client example_args None = Inr r \<and>
        ret r = - 22 \<and> exit_at r = Label_out)"
proof -
  let ?v = "scripted_vfs 0 0 0 0"
  obtain req0 where c: "ceph_mdsc_create_request ?v (path example_args) = Ptr req0"
    by (simp add: scripted_vfs_def)
  obtain req where d: "ceph_mdsc_do_request ?v (req0\<lparr>r_open_flags := O_DIRECTORY, r_open_mode := 0\<rparr>) = (0, req)"
    and h: "head_result (r_reply_info req) = 0 \<and> trace_nr (r_reply_info req) = 0"
    by (simp add: scripted_vfs_def)
  have z: "(0::int) \<le> 0" by simp
  from empty_trace_is_invalid_reply [OF c d z, of fresh_client None] h
  have "\<exists>r. open_root_inode ?v fresh_client example_args None = Inr r \<and>
        ret r = - EINVAL \<and> exit_at r = Label_out"
    by blast
  then have "\<exists>r. open_root_inode ?v fresh_client example_args None = Inr r \<and>
        ret r = - 22 \<and> exit_at r = Label_out"
    by (simp add: EINVAL_def)
  moreover have "\<exists>req0 req err.
      ceph_mdsc_create_request ?v (path example_args) = Ptr req0 \<and>
      ceph_mdsc_do_request ?v (req0\<lparr>r_open_flags := O_DIRECTORY, r_open_mode := 0\<rparr>) = (err, req) \<and>
      0 \<le> err \<and> head_result (r_reply_info req) = 0 \<and> trace_nr (r_reply_info req) = 0"
    using c d z h by blast
  ultimately show ?thesis by (rule conjI [rotated])
qed

text \<open>
  Claim C6. When \<^verbatim>\<open>open_root_inode\<close> fails after the reply was received, it calls
  \<^verbatim>\<open>iput(root_inode)\<close> if and only if \<^verbatim>\<open>alloc_fs\<close> is set, which is the case exactly when
  there was no root entry and \<^verbatim>\<open>ceph_get_inode\<close> produced one in this call, and the inode
  released is that one; with a root entry already present it is never released. On every
  failure after the root entry step it calls \<^verbatim>\<open>iput(mnt_inode)\<close> exactly once, on the inode
  that \<^verbatim>\<open>ceph_fill_trace\<close> stored there (still \<^verbatim>\<open>NULL\<close> only when \<^verbatim>\<open>d_alloc_root\<close> failed
  before \<^verbatim>\<open>ceph_fill_trace\<close> ran), and then puts the request; these are all its releases.
  A failure before the root entry step only puts the request.
\<close>

theorem root_cleanup_discipline:
  assumes "ceph_mdsc_create_request v (path args) = Ptr req0"
    and "ceph_mdsc_do_request v (req0\<lparr>r_open_flags := O_DIRECTORY, r_open_mode := 0\<rparr>) = (err, req)"
    and "0 \<le> err"
    and "open_root_inode v client args pmnt_root = Inr r"
    and "exit_at r \<noteq> Return_success"
  shows "(\<exists>ri. Iput_root_inode ri \<in> set (root_events r)) = alloc_fs r \<and>
         alloc_fs r =
           (sb_s_root client = None \<and> head_result (r_reply_info req) = 0 \<and>
            trace_nr (r_reply_info req) \<noteq> 0 \<and>
            0 \<le> fst (ceph_get_inode v (trace_in0_ino (r_reply_info req)))) \<and>
         (\<forall>ri. Iput_root_inode ri \<in> set (root_events r) \<longrightarrow>
            ri = snd (ceph_get_inode v (trace_in0_ino (r_reply_info req)))) \<and>
         (sb_s_root client \<noteq> None \<longrightarrow> (\<forall>ri. Iput_root_inode ri \<notin> set (root_events r))) \<and>
         (if head_result (r_reply_info req) = 0 \<and> trace_nr (r_reply_info req) \<noteq> 0 \<and>
             (sb_s_root client = None \<longrightarrow>
                0 \<le> fst (ceph_get_inode v (trace_in0_ino (r_reply_info req))))
          then exit_at r = Label_out2 \<and>
               root_events r =
                 (if alloc_fs r
                  then [Iput_root_inode (snd (ceph_get_inode v (trace_in0_ino (r_reply_info req))))]
                  else []) @
                 [Iput_mnt_inode
                    (if sb_s_root client = None \<and>
                        d_alloc_root v (snd (ceph_get_inode v (trace_in0_ino (r_reply_info req)))) = None
                     then None
                     else fst (snd (ceph_fill_trace v (r_reply_info req) pmnt_root))),
                  Put_request]
          else exit_at r = Label_out \<and> root_events r = [Put_request]) \<and>
         Put_request \<in> set (root_events r)"
proof -
  note run = open_root_inode_after_reply [OF assms(1,2,3), of client pmnt_root]
  let ?rinfo = "r_reply_info req"
  let ?gi = "ceph_get_inode v (trace_in0_ino ?rinfo)"
  let ?ft = "fst (snd (ceph_fill_trace v ?rinfo pmnt_root))"
  show ?thesis
  proof (cases "head_result ?rinfo = 0 \<and> trace_nr ?rinfo \<noteq> 0")
    case False
    then have nz: "sint (head_result ?rinfo) \<noteq> 0 \<or> trace_nr ?rinfo = 0"
      by (auto simp add: signed_eq_0_iff)
    then have "\<exists>e. r = leave_out e False (sb_s_root client) pmnt_root"
      using assms(4) by (auto simp add: run Let_def split: if_splits)
    then have "root_events r = [Put_request]" "alloc_fs r = False" "exit_at r = Label_out"
      by (auto simp add: leave_out_def)
    with False show ?thesis by auto
  next
    case True
    then have hr: "sint (head_result ?rinfo) = 0" and tn: "trace_nr ?rinfo \<noteq> 0"
      by (simp_all add: signed_eq_0_iff)
    show ?thesis
    proof (cases "sb_s_root client")
      case None
      show ?thesis
      proof (cases "fst ?gi < 0")
        case neg: True
        then have "r = leave_out (fst ?gi) False None pmnt_root"
          using assms(4) hr tn None by (simp add: run Let_def)
        then have "root_events r = [Put_request]" "alloc_fs r = False" "exit_at r = Label_out"
          by (simp_all add: leave_out_def)
        with neg True None show ?thesis by auto
      next
        case nonneg: False
        show ?thesis
        proof (cases "d_alloc_root v (snd ?gi)")
          case dn: None
          then have "r = leave_out2 (- ENOMEM) True (snd ?gi) None None pmnt_root"
            using assms(4) hr tn None nonneg by (simp add: run Let_def)
          then have "root_events r = [Iput_root_inode (snd ?gi), Iput_mnt_inode None, Put_request]"
            "alloc_fs r = True" "exit_at r = Label_out2"
            by (simp_all add: leave_out2_def)
          with nonneg True None dn show ?thesis by auto
        next
          case (Some d)
          then have "fill_and_add_cap v req True (snd ?gi) (Some d) pmnt_root = Inr r"
            using assms(4) hr tn None nonneg by (simp add: run Let_def)
          from fill_and_add_cap_cases [OF this] assms(5)
          have "alloc_fs r = True" "exit_at r = Label_out2"
            "root_events r = [Iput_root_inode (snd ?gi), Iput_mnt_inode ?ft, Put_request]"
            by auto
          with nonneg True None Some show ?thesis by auto
        qed
      qed
    next
      case (Some d)
      then obtain ri where "d_inode d = Some ri"
        and "fill_and_add_cap v req False ri (Some d) pmnt_root = Inr r"
        using assms(4) hr tn by (auto simp add: run Let_def split: option.splits)
      from fill_and_add_cap_cases [OF this(2)] assms(5)
      have "alloc_fs r = False" "exit_at r = Label_out2"
        "root_events r = [Iput_mnt_inode ?ft, Put_request]"
        by auto
      with True Some show ?thesis by auto
    qed
  qed
qed

lemma example_add_cap_failure:
  "open_root_inode cap_refusing_vfs fresh_client example_args None =
     Inr \<lparr>ret = - 12, exit_at = Label_out2,
          root_events = [Iput_root_inode 1, Iput_mnt_inode (Some 2), Put_request],
          alloc_fs = True, s_root_after = Some \<lparr>d_inode = Some 1\<rparr>,
          pmnt_root_after = Some \<lparr>d_inode = Some 2\<rparr>\<rparr>"
  by (simp add: open_root_inode_def cap_refusing_vfs_def scripted_vfs_def fresh_client_def
      example_args_def fill_and_add_cap_def leave_out2_def Let_def)

theorem root_cleanup_discipline_witness:
  "(\<exists>req0 req err r.
      ceph_mdsc_create_request cap_refusing_vfs (path example_args) = Ptr req0 \<and>
      ceph_mdsc_do_request cap_refusing_vfs
        (req0\<lparr>r_open_flags := O_DIRECTORY, r_open_mode := 0\<rparr>) = (err, req) \<and> 0 \<le> err \<and>
      open_root_inode cap_refusing_vfs fresh_client example_args None = Inr r \<and>
      exit_at r \<noteq> Return_success \<and> alloc_fs r \<and>
      fst (snd (ceph_fill_trace cap_refusing_vfs (r_reply_info req) None)) = Some 2 \<and>
      root_events r = [Iput_root_inode 1, Iput_mnt_inode (Some 2), Put_request])"
proof -
  let ?v = "cap_refusing_vfs"
  obtain req0 where c: "ceph_mdsc_create_request ?v (path example_args) = Ptr req0"
    by (simp add: cap_refusing_vfs_def scripted_vfs_def)
  obtain req where d: "ceph_mdsc_do_request ?v (req0\<lparr>r_open_flags := O_DIRECTORY, r_open_mode := 0\<rparr>) = (0, req)"
    and h: "head_result (r_reply_info req) = 0 \<and> trace_nr (r_reply_info req) \<noteq> 0"
    by (simp add: cap_refusing_vfs_def scripted_vfs_def)
  have z: "(0::int) \<le> 0" by simp
  obtain r where run: "open_root_inode ?v fresh_client example_args None = Inr r"
    and f: "exit_at r \<noteq> Return_success"
    by (simp add: example_add_cap_failure)
  have g: "ceph_get_inode ?v (trace_in0_ino (r_reply_info req)) = (0, 1)"
    using d by (auto simp add: cap_refusing_vfs_def scripted_vfs_def)
  have da: "d_alloc_root ?v 1 \<noteq> None"
    by (simp add: cap_refusing_vfs_def scripted_vfs_def)
  have ft: "fst (snd (ceph_fill_trace ?v (r_reply_info req) None)) = Some 2"
    by (simp add: cap_refusing_vfs_def scripted_vfs_def)
  have s: "sb_s_root fresh_client = None" by (simp add: fresh_client_def)
  from root_cleanup_discipline [OF c d z run f] h g da ft s
  have "alloc_fs r \<and> root_events r = [Iput_root_inode 1, Iput_mnt_inode (Some 2), Put_request]"
    by simp
  with c d z run f ft show ?thesis by blast
qed

text \<open>
  Claim C4, at the input where it fails. When \<^verbatim>\<open>ceph_mdsc_do_request\<close> returns \<^verbatim>\<open>-EIO\<close>,
  \<^verbatim>\<open>open_root_inode\<close> returns that code unchanged, but from line 70, before the label
  \<^verbatim>\<open>out\<close>: it does not call \<^verbatim>\<open>ceph_mdsc_put_request\<close> on the request it created.
\<close>

theorem request_leaked_when_do_request_fails:
  "open_root_inode (scripted_vfs (- 5) 0 1 0) fresh_client example_args None =
     Inr \<lparr>ret = - 5, exit_at = Return_request_failed, root_events = [], alloc_fs = False,
          s_root_after = None, pmnt_root_after = None\<rparr>"
  by (simp add: open_root_inode_def scripted_vfs_def fresh_client_def example_args_def Let_def)

section \<open>Theorems about mounting\<close>









text \<open>
  Claim C8 as stated fails for three monitors. Of the 256 byte values, an unsigned
  \<^verbatim>\<open>char\<close> selects monitor 0 for 86 and monitor 1 for 85; a signed \<^verbatim>\<open>char\<close> selects
  monitor 0 for 85 and monitor 1 for 43, and maps the byte 255 to index -1, outside the
  list.
\<close>

theorem monitor_selection_not_uniform:
  "selections False 3 0 = 86 \<and> selections False 3 1 = 85 \<and>
   selections True 3 0 = 85 \<and> selections True 3 1 = 43 \<and>
   which_mon True 255 3 = - 1"
proof -
  have "selections False 3 0 = 86" by code_simp
  moreover have "selections False 3 1 = 85" by code_simp
  moreover have "selections True 3 0 = 85" by code_simp
  moreover have "selections True 3 1 = 43" by code_simp
  moreover have "which_mon True 255 3 = - 1"
    by (simp add: which_mon_def char_value_def signed_modulo_int_def)
  ultimately show ?thesis by blast
qed

text \<open>
  Claim C8, as amended. For every \<^verbatim>\<open>num_mon\<close> of at least 1 and every random byte whose
  value as a \<^verbatim>\<open>char\<close> is not negative, the selected index is that value modulo
  \<^verbatim>\<open>num_mon\<close> and lies in the range from 0 up to, not including, \<^verbatim>\<open>num_mon\<close>.
\<close>

theorem which_mon_in_range:
  assumes "1 \<le> n" and "0 \<le> char_value is_signed r"
  shows "which_mon is_signed r n = char_value is_signed r mod n \<and>
         0 \<le> which_mon is_signed r n \<and> which_mon is_signed r n < n"
proof -
  have "which_mon is_signed r n = char_value is_signed r mod n"
    using assms
    by (cases "char_value is_signed r = 0") (simp_all add: which_mon_def signed_modulo_int_def)
  moreover have "0 \<le> char_value is_signed r mod n" "char_value is_signed r mod n < n"
    using assms(1) by simp_all
  ultimately show ?thesis by simp
qed

theorem which_mon_in_range_witness:
  "(1 :: int) \<le> 3 \<and> 0 \<le> char_value False 200 \<and> which_mon False 200 3 = 2 \<and>
   0 \<le> which_mon False 200 3 \<and> which_mon False 200 3 < 3"
proof -
  have a: "(1 :: int) \<le> 3" by simp
  have b: "0 \<le> char_value False 200" by (simp add: char_value_def)
  have "char_value False 200 mod 3 = 2" by (simp add: char_value_def)
  with which_mon_in_range [OF a b] a b show ?thesis by simp
qed

end
